theory Spec2Isabelle
  imports Complex_Main "HOL-Library.Word" "HOL-Library.Multiset"
begin

section \<open>Binary64 arithmetic\<close>

text \<open>
  The program computes on C \<^verbatim>\<open>double\<close>s.  A finite double is modelled by the real
  number it denotes, and every arithmetic operation of the source is the exact
  operation followed by \<open>rnd\<close>, the IEEE-754 round-to-nearest, ties-to-even
  rounding to 53 significant bits; operations are rounded one by one, without
  fused multiply-add.  Exponent overflow, subnormal numbers and NaN are outside
  the model; \<open>+\<infinity>\<close>, which the source stores in \<^verbatim>\<open>tMax\<close>,
  \<^verbatim>\<open>maxMult\<close> and \<^verbatim>\<open>maxranges\<close>, is the constructor \<open>PInf\<close> of \<open>xreal\<close>.
\<close>

text \<open>\<open>ilog2 n x\<close> is the binary exponent \<open>e\<close> with \<open>2^e \<le> x < 2^(e+1)\<close>, searched in
  at most \<open>n\<close> halvings or doublings (the exponent field of a double has 11 bits).\<close>

fun ilog2 :: "nat \<Rightarrow> real \<Rightarrow> int" where
  "ilog2 0 x = 0"
| "ilog2 (Suc n) x =
     (if 2 \<le> x then ilog2 n (x / 2) + 1
      else if x < 1 then ilog2 n (x * 2) - 1
      else 0)"

definition pow2 :: "int \<Rightarrow> real" where
  "pow2 e = (if 0 \<le> e then 2 ^ nat e else 1 / 2 ^ nat (- e))"

text \<open>Nearest integer, ties to the even one.\<close>

definition rne :: "real \<Rightarrow> int" where
  "rne y =
     (let f = \<lfloor>y\<rfloor>; d = y - of_int f
      in if d < 1 / 2 then f
         else if 1 / 2 < d then f + 1
         else if even f then f else f + 1)"

definition rnd :: "real \<Rightarrow> real" where
  "rnd x =
     (if x = 0 then 0
      else let e = ilog2 1100 \<bar>x\<bar> - 52
           in of_int (rne (x / pow2 e)) * pow2 e)"

definition fadd :: "real \<Rightarrow> real \<Rightarrow> real" where
  "fadd a b = rnd (a + b)"

definition fsub :: "real \<Rightarrow> real \<Rightarrow> real" where
  "fsub a b = rnd (a - b)"

definition fmul :: "real \<Rightarrow> real \<Rightarrow> real" where
  "fmul a b = rnd (a * b)"

definition fdiv :: "real \<Rightarrow> real \<Rightarrow> real" where
  "fdiv a b = rnd (a / b)"

text \<open>Conversion of a double to \<^verbatim>\<open>ssize_t\<close> truncates toward zero.\<close>

definition trunc :: "real \<Rightarrow> int" where
  "trunc x = (if 0 \<le> x then \<lfloor>x\<rfloor> else \<lceil>x\<rceil>)"

text \<open>C's \<^verbatim>\<open>fmod\<close>: the exact remainder \<open>a - n * b\<close> with \<open>n\<close> the quotient truncated
  toward zero; the result is always representable and has the sign of \<open>a\<close>.\<close>

definition fmod :: "real \<Rightarrow> real \<Rightarrow> real" where
  "fmod a b = a - of_int (trunc (a / b)) * b"

datatype xreal = Fin real | PInf

section \<open>Voxelizer\<close>

record voxel =
  vx :: int
  vy :: int
  vz :: int

type_synonym point = "real \<times> real \<times> real"

definition py_div :: "real \<Rightarrow> real \<Rightarrow> int" where
  "py_div a b =
     (let q = trunc (fdiv a b);
          r = fmod a b
      in if r \<noteq> 0 \<and> ((r < 0) \<noteq> (b < 0)) then q - 1 else q)"

definition py_mod :: "real \<Rightarrow> real \<Rightarrow> real" where
  "py_mod a b =
     (let r = fmod a b
      in if r \<noteq> 0 \<and> ((r < 0) \<noteq> (b < 0)) then fadd r b else r)"

definition voxel_of_point :: "point \<Rightarrow> real \<Rightarrow> voxel" where
  "voxel_of_point p voxel_size =
     (case p of (p0, p1, p2) \<Rightarrow>
        \<lparr>vx = py_div p0 voxel_size,
         vy = py_div p1 voxel_size,
         vz = py_div p2 voxel_size\<rparr>)"

section \<open>Visitor: the sliding-window carving policy\<close>

text \<open>
  \<^verbatim>\<open>size_t\<close> is a 64-bit unsigned integer whose arithmetic wraps around.  A
  \<^verbatim>\<open>std::set<size_t>\<close> is the ascending list of its elements; \<open>lower_bound\<close>
  returns the first element that is not less than the key, \<open>None\<close> standing for
  \<^verbatim>\<open>end()\<close>.  The \<^verbatim>\<open>unordered_map\<close> is a partial map, the set of free voxels a set.
\<close>

type_synonym size_t = "64 word"

record visitor_args =
  empty_voxels :: "voxel set"
  voxel_occupied_by_slice :: "voxel \<Rightarrow> size_t list option"
  current_slice :: size_t
  diff :: size_t

definition lower_bound :: "size_t list \<Rightarrow> size_t \<Rightarrow> size_t option" where
  "lower_bound scanslices w = find (\<lambda>x. w \<le> x) scanslices"

definition mark_free :: "voxel \<Rightarrow> visitor_args \<Rightarrow> visitor_args" where
  "mark_free voxel args = args\<lparr>empty_voxels := insert voxel (empty_voxels args)\<rparr>"

text \<open>The result is the returned flag (\<open>False\<close> stops the walk) and the arguments
  after the call.\<close>

definition visitor :: "voxel \<Rightarrow> visitor_args \<Rightarrow> bool \<times> visitor_args" where
  "visitor voxel args =
     (case voxel_occupied_by_slice args voxel of
        None \<Rightarrow> (True, args)
      | Some scanslices \<Rightarrow>
          if diff args = 0 then
            (if current_slice args \<in> set scanslices then (False, args)
             else (True, mark_free voxel args))
          else
            (let window_start0 = current_slice args - diff args;
                 window_start =
                   (if diff args > current_slice args then 0 else window_start0)
             in case lower_bound scanslices window_start of
                  Some lb \<Rightarrow>
                    if lb \<le> current_slice args + diff args then (False, args)
                    else (True, mark_free voxel args)
                | None \<Rightarrow> (True, mark_free voxel args)))"

section \<open>Ray walker\<close>

text \<open>
  The source keeps, for each of the three axes, the variables \<^verbatim>\<open>step\<close>, \<^verbatim>\<open>tDelta\<close>,
  \<^verbatim>\<open>tMax\<close>, \<^verbatim>\<open>maxMult\<close>, \<^verbatim>\<open>mult\<close>, \<^verbatim>\<open>tMaxStart\<close> and the axis coordinate of
  \<^verbatim>\<open>start_voxel\<close> and \<^verbatim>\<open>cur_voxel\<close>, and repeats the same statements for X, Y and
  Z.  The model keeps one record per axis.  Voxel coordinates (\<^verbatim>\<open>ssize_t\<close>) are
  integers and the step counters (\<^verbatim>\<open>size_t\<close>) naturals; their conversion to
  double is exact below \<open>2^53\<close> and is written as the plain embedding.  The
  steps (\<^verbatim>\<open>char\<close>, taken as signed) are \<open>-1\<close>, \<open>0\<close> or \<open>1\<close>.
\<close>

record axis =
  step :: int
  tDelta :: real
  tMax :: xreal
  maxMult :: xreal
  start_c :: int
  cur_c :: int
  mult :: nat
  tMaxStart :: xreal

fun xless :: "xreal \<Rightarrow> xreal \<Rightarrow> bool" where
  "xless (Fin a) (Fin b) = (a < b)"
| "xless (Fin a) PInf = True"
| "xless PInf b = False"

text \<open>\<^verbatim>\<open>std::min(a, b)\<close> returns \<open>b\<close> if \<open>b < a\<close> and \<open>a\<close> otherwise.\<close>

definition xmin :: "xreal \<Rightarrow> xreal \<Rightarrow> xreal" where
  "xmin a b = (if xless b a then b else a)"

fun xplus :: "xreal \<Rightarrow> real \<Rightarrow> xreal" where
  "xplus (Fin a) b = Fin (fadd a b)"
| "xplus PInf b = PInf"

text \<open>\<open>exceeds m b\<close> is the comparison \<^verbatim>\<open>mult > b\<close> of a counter with a double.\<close>

fun exceeds :: "nat \<Rightarrow> xreal \<Rightarrow> bool" where
  "exceeds m (Fin b) = (b < real m)"
| "exceeds m PInf = False"

definition axis_init :: "real \<Rightarrow> real \<Rightarrow> real \<Rightarrow> int \<Rightarrow> int \<Rightarrow> axis" where
  "axis_init direction start_p voxel_size sv ev =
     (if direction = 0 then
        \<lparr>step = 0, tDelta = 0, tMax = PInf, maxMult = PInf,
         start_c = sv, cur_c = sv, mult = 0, tMaxStart = PInf\<rparr>
      else
        let st = (if direction > 0 then 1 else - 1);
            td = fdiv (fmul (of_int st) voxel_size) direction;
            tm = fmul td (fsub 1 (py_mod (fmul (of_int st) (fdiv start_p voxel_size)) 1));
            mm = of_int ((ev - sv) * st);
            corner = (st = - 1 \<and> tm = td \<and> sv \<noteq> ev)
        in \<lparr>step = st, tDelta = td, tMax = Fin tm,
            maxMult = Fin (if corner then fsub mm 1 else mm),
            start_c = (if corner then sv - 1 else sv),
            cur_c = (if corner then sv - 1 else sv),
            mult = 0, tMaxStart = Fin tm\<rparr>)"

definition step_axis :: "xreal \<Rightarrow> axis \<Rightarrow> axis \<times> bool" where
  "step_axis minVal a =
     (if minVal = tMax a then
        (let m = mult a + 1
         in (a\<lparr>cur_c := start_c a + int m * step a,
               tMax := xplus (tMaxStart a) (fmul (real m) (tDelta a)),
               mult := m\<rparr>, True))
      else (a, False))"

text \<open>The coordinate of \<^verbatim>\<open>add_voxel\<close> on one axis, or \<open>None\<close> where the source
  breaks out of the loop.\<close>

definition add_axis :: "axis \<Rightarrow> bool \<Rightarrow> int option" where
  "add_axis a stepped =
     (if stepped then
        (if step a < 0 then
           (if exceeds (mult a) (xplus (maxMult a) 1) then None
            else Some (cur_c a + 1))
         else if exceeds (mult a) (maxMult a) then None
         else Some (cur_c a))
      else Some (cur_c a))"

type_synonym trace = "(voxel \<times> bool) list"

type_synonym 'd wstate = "axis \<times> axis \<times> axis \<times> 'd \<times> trace"

text \<open>The trace lists the visitor calls in order, each with the flag it returned.\<close>

definition call :: "(voxel \<Rightarrow> 'd \<Rightarrow> bool \<times> 'd) \<Rightarrow> voxel \<Rightarrow> 'd \<times> trace \<Rightarrow> bool \<times> 'd \<times> trace" where
  "call vis v dt =
     (case dt of (d, tr) \<Rightarrow>
        (case vis v d of (r, d') \<Rightarrow> (r, d', tr @ [(v, r)])))"

text \<open>The tail of an iteration: the step-count checks and the visit of
  \<^verbatim>\<open>cur_voxel\<close>.\<close>

definition loop_tail ::
  "(voxel \<Rightarrow> 'd \<Rightarrow> bool \<times> 'd) \<Rightarrow> axis \<times> bool \<Rightarrow> axis \<times> bool \<Rightarrow> axis \<times> bool \<Rightarrow>
     'd \<times> trace \<Rightarrow> ('d \<times> trace) + 'd wstate" where
  "loop_tail vis XS YS ZS dt =
     (case (XS, YS, ZS) of ((X, steppedX), (Y, steppedY), (Z, steppedZ)) \<Rightarrow>
        if steppedX \<and> exceeds (mult X) (maxMult X) then Inl dt
        else if steppedY \<and> exceeds (mult Y) (maxMult Y) then Inl dt
        else if steppedZ \<and> exceeds (mult Z) (maxMult Z) then Inl dt
        else
          (case call vis \<lparr>vx = cur_c X, vy = cur_c Y, vz = cur_c Z\<rparr> dt of
             (r, d', tr') \<Rightarrow>
               if \<not> r then Inl (d', tr') else Inr (X, Y, Z, d', tr')))"

text \<open>One iteration of the \<^verbatim>\<open>while (1)\<close> loop: \<open>Inl\<close> is a \<^verbatim>\<open>break\<close>, \<open>Inr\<close> the
  state at the next iteration.\<close>

definition loop_body ::
  "(voxel \<Rightarrow> 'd \<Rightarrow> bool \<times> 'd) \<Rightarrow> 'd wstate \<Rightarrow> ('d \<times> trace) + 'd wstate" where
  "loop_body vis s =
     (case s of (X0, Y0, Z0, d, tr) \<Rightarrow>
        let minVal = xmin (xmin (tMax X0) (tMax Y0)) (tMax Z0);
            XS = step_axis minVal X0;
            YS = step_axis minVal Y0;
            ZS = step_axis minVal Z0;
            X = fst XS; steppedX = snd XS;
            Y = fst YS; steppedY = snd YS;
            Z = fst ZS; steppedZ = snd ZS
        in
          if ((steppedX \<and> steppedY) \<or> (steppedY \<and> steppedZ) \<or> (steppedX \<and> steppedZ))
             \<and> (step X = 1 \<or> step Y = 1 \<or> step Z = 1)
             \<and> (step X = - 1 \<or> step Y = - 1 \<or> step Z = - 1)
          then
            (case add_axis X steppedX of
               None \<Rightarrow> Inl (d, tr)
             | Some ax \<Rightarrow>
                (case add_axis Y steppedY of
                   None \<Rightarrow> Inl (d, tr)
                 | Some ay \<Rightarrow>
                    (case add_axis Z steppedZ of
                       None \<Rightarrow> Inl (d, tr)
                     | Some az \<Rightarrow>
                        (case call vis \<lparr>vx = ax, vy = ay, vz = az\<rparr> (d, tr) of
                           (r, d', tr') \<Rightarrow>
                             if \<not> r then Inl (d', tr')
                             else loop_tail vis XS YS ZS (d', tr')))))
          else loop_tail vis XS YS ZS (d, tr))"

partial_function (option) walk_loop ::
  "(voxel \<Rightarrow> 'd \<Rightarrow> bool \<times> 'd) \<Rightarrow> 'd wstate \<Rightarrow> ('d \<times> trace) option" where
  "walk_loop vis s =
     (case loop_body vis s of
        Inl res \<Rightarrow> Some res
      | Inr s' \<Rightarrow> walk_loop vis s')"

text \<open>The result is \<open>None\<close> if the loop never ends, otherwise the visitor's data
  after the walk and the trace of its calls.  The first two calls discard the
  returned flag, as the source does.\<close>

definition walk_voxels ::
  "point \<Rightarrow> point \<Rightarrow> real \<Rightarrow> (voxel \<Rightarrow> 'd \<Rightarrow> bool \<times> 'd) \<Rightarrow> 'd \<Rightarrow> ('d \<times> trace) option" where
  "walk_voxels start_pos end_pos voxel_size vis data =
     (case (start_pos, end_pos) of ((s0, s1, s2), (e0, e1, e2)) \<Rightarrow>
        let d0 = fsub e0 s0; d1 = fsub e1 s1; d2 = fsub e2 s2
        in if d0 = 0 \<and> d1 = 0 \<and> d2 = 0 then Some (data, [])
           else
             let start_voxel = voxel_of_point start_pos voxel_size;
                 end_voxel = voxel_of_point end_pos voxel_size;
                 c1 = call vis start_voxel (data, [])
             in if start_voxel = end_voxel then Some (snd c1)
                else
                  let X = axis_init d0 s0 voxel_size (vx start_voxel) (vx end_voxel);
                      Y = axis_init d1 s1 voxel_size (vy start_voxel) (vy end_voxel);
                      Z = axis_init d2 s2 voxel_size (vz start_voxel) (vz end_voxel);
                      cur_voxel = \<lparr>vx = cur_c X, vy = cur_c Y, vz = cur_c Z\<rparr>;
                      c2 = call vis cur_voxel (snd c1)
                  in if cur_voxel = end_voxel then Some (snd c2)
                     else walk_loop vis (X, Y, Z, snd c2))"

subsection \<open>Invariant and measure of the walker's loop\<close>

text \<open>An axis that can be stepped has a finite \<open>tMax\<close> and a finite \<open>maxMult\<close>;
  \<open>rest\<close> bounds the number of steps that remain on an axis before the loop's
  step-count check breaks.\<close>

definition axis_ok :: "axis \<Rightarrow> bool" where
  "axis_ok a \<longleftrightarrow> (tMax a = PInf \<longleftrightarrow> tMaxStart a = PInf) \<and> (tMax a \<noteq> PInf \<longrightarrow> maxMult a \<noteq> PInf)"

definition rest :: "axis \<Rightarrow> nat" where
  "rest a = (case maxMult a of Fin m \<Rightarrow> nat \<lceil>m\<rceil> + 1 - mult a | PInf \<Rightarrow> 0)"

definition wmeasure :: "'d wstate \<Rightarrow> nat" where
  "wmeasure s = (case s of (X, Y, Z, d, tr) \<Rightarrow> rest X + rest Y + rest Z)"

definition winv :: "'d wstate \<Rightarrow> bool" where
  "winv s = (case s of (X, Y, Z, d, tr) \<Rightarrow>
     axis_ok X \<and> axis_ok Y \<and> axis_ok Z \<and> (tMax X \<noteq> PInf \<or> tMax Y \<noteq> PInf \<or> tMax Z \<noteq> PInf))"



section \<open>Option validation and output\<close>

text \<open>The checks on \<^verbatim>\<open>start\<close> and \<^verbatim>\<open>end\<close> in \<^verbatim>\<open>main\<close>; each \<^verbatim>\<open>throw\<close> is an error
  value.\<close>

datatype config_error = Negative_start | Negative_end | End_before_start

definition check_scan_range :: "int \<Rightarrow> int \<Rightarrow> config_error + unit" where
  "check_scan_range start end =
     (if start < 0 then Inl Negative_start
      else if end < - 1 then Inl Negative_end
      else if 0 < end \<and> end < start then Inl End_before_start
      else Inr ())"

text \<open>A line of \<^verbatim>\<open>scan000.3d\<close> or \<^verbatim>\<open>scan001.3d\<close> is the four doubles that
  \<^verbatim>\<open>fprintf\<close> prints: the coordinates and the constant \<^verbatim>\<open>0.0f\<close>.  The reflectance
  argument is commented out in the source; the map of reflectances is in scope
  where the files are written and is not read.\<close>

type_synonym line3d = "real \<times> real \<times> real \<times> real"

definition out_line :: "point \<Rightarrow> line3d" where
  "out_line p = (case p of (p0, p1, p2) \<Rightarrow> (p0, p1, p2, 0))"

text \<open>The pair is the contents of the static and of the dynamic file.\<close>

definition write_point ::
  "voxel set \<Rightarrow> real \<Rightarrow> point \<Rightarrow> line3d list \<times> line3d list \<Rightarrow> line3d list \<times> line3d list" where
  "write_point free_voxels voxel_size p out =
     (if voxel_of_point p voxel_size \<notin> free_voxels
      then (fst out @ [out_line p], snd out)
      else (fst out, snd out @ [out_line p]))"

definition write_partitioning ::
  "voxel set \<Rightarrow> real \<Rightarrow> size_t list \<Rightarrow> (size_t \<Rightarrow> point list) \<Rightarrow> (size_t \<Rightarrow> real list) \<Rightarrow>
     line3d list \<times> line3d list" where
  "write_partitioning free_voxels voxel_size scanorder points_by_slice reflectances_by_slice =
     fold (\<lambda>i. fold (write_point free_voxels voxel_size) (points_by_slice i)) scanorder ([], [])"

text \<open>The lines of the mask file of one scan.\<close>

definition write_mask :: "voxel set \<Rightarrow> real \<Rightarrow> point list \<Rightarrow> string list" where
  "write_mask free_voxels voxel_size points =
     map (\<lambda>p. if voxel_of_point p voxel_size \<notin> free_voxels then ''0'' else ''1'') points"

section \<open>Maximum ranges\<close>

text \<open>
  The functions \<^verbatim>\<open>Len\<close>, \<^verbatim>\<open>Normalize3\<close>, \<^verbatim>\<open>calculateNormal\<close>, \<^verbatim>\<open>transform3\<close>, the
  search of the spherical quadtree and the library's \<^verbatim>\<open>asin\<close> are not part of the
  two source files; the model takes them as parameters.  \<open>qtree_search E ps\<close> is
  the search of the quadtree built from the points \<open>ps\<close>.
\<close>

record env =
  Len :: "point \<Rightarrow> real"
  Normalize3 :: "point \<Rightarrow> point"
  calculateNormal :: "point list \<Rightarrow> point"
  qtree_search :: "point list \<Rightarrow> point \<Rightarrow> real \<Rightarrow> nat list"
  asin :: "real \<Rightarrow> real"
  transform3 :: "real list \<Rightarrow> point \<Rightarrow> point"

datatype normal_method_t = KNEAREST | RANGE | ANGLE | KNEAREST_GLOBAL | RANGE_GLOBAL

text \<open>Each \<^verbatim>\<open>exit(1)\<close> of the max-range phase.\<close>

datatype abort = Unsupported_normal_method | Range_beyond_point | Point_too_close

text \<open>The sum \<^verbatim>\<open>a[0]*b[0]+a[1]*b[1]+a[2]*b[2]\<close>, evaluated from the left.\<close>

definition dot :: "point \<Rightarrow> point \<Rightarrow> real" where
  "dot a b =
     (case (a, b) of ((a0, a1, a2), (b0, b1, b2)) \<Rightarrow>
        fadd (fadd (fmul a0 b0) (fmul a1 b1)) (fmul a2 b2))"

text \<open>\<^verbatim>\<open>std::stable_sort\<close> of the indices by their distance.\<close>

definition sorted_point_indices :: "real list \<Rightarrow> nat list" where
  "sorted_point_indices distances = sort_key (\<lambda>j. distances ! j) [0..<length distances]"

text \<open>The body of the loop over the shadow of a point (lines 782 to 814) for the
  neighbour \<open>k\<close>.\<close>

definition shadow_update ::
  "env \<Rightarrow> point list \<Rightarrow> real list \<Rightarrow> point \<Rightarrow> real \<Rightarrow> nat \<Rightarrow> xreal list \<Rightarrow> xreal list" where
  "shadow_update E pts distances normal dividend k maxranges =
     (let p_k = pts ! k;
          p_k_norm = Normalize3 E p_k;
          divisor = dot p_k_norm normal
      in if divisor = 0 then maxranges
         else
           let d = fdiv dividend divisor
           in if d > distances ! k then maxranges
              else
                let d' = (if d < 0 then 0 else d)
                in if xless (maxranges ! k) (Fin d') then maxranges
                   else maxranges[k := Fin d'])"

text \<open>The body of the loop over the sorted indices (lines 675 to 815) for the
  point \<open>j\<close>, with the normal method \<^verbatim>\<open>ANGLE\<close>.\<close>

definition seed_point ::
  "env \<Rightarrow> real \<Rightarrow> real \<Rightarrow> point list \<Rightarrow> real list \<Rightarrow> nat \<Rightarrow> xreal list \<Rightarrow> abort + xreal list" where
  "seed_point E voxel_diagonal fuzz pts distances j maxranges =
     (if maxranges ! j \<noteq> PInf then Inr maxranges
      else
        let p = pts ! j;
            p_norm = Normalize3 E p;
            angle = fmul 2 (asin E (fdiv voxel_diagonal (fsub (distances ! j) voxel_diagonal)));
            angular_points = map (\<lambda>k. pts ! k) (qtree_search E pts p_norm angle);
            normal0 = calculateNormal E angular_points;
            angle_cos = dot normal0 p_norm;
            normal =
              (if angle_cos \<ge> 0
               then (case normal0 of (n0, n1, n2) \<Rightarrow> (- n0, - n1, - n2))
               else normal0);
            off = fadd voxel_diagonal fuzz;
            p_base =
              (case (p, normal) of ((p0, p1, p2), (n0, n1, n2)) \<Rightarrow>
                 (fadd p0 (fmul n0 off), fadd p1 (fmul n1 off), fadd p2 (fmul n2 off)));
            dividend = dot p_base normal;
            divisor = dot p_norm normal
        in if divisor = 0 then Inr (maxranges[j := Fin 0])
           else if fdiv dividend divisor > distances ! j then Inl Range_beyond_point
           else
             let r = fdiv dividend divisor;
                 maxranges1 = maxranges[j := Fin (if r < 0 then 0 else r)]
             in if Len E p < voxel_diagonal then Inl Point_too_close
                else Inr (fold (shadow_update E pts distances normal dividend)
                            (qtree_search E pts p_norm angle) maxranges1))"

text \<open>The max-range phase for one scan with original points \<open>pts\<close>.\<close>

definition maxranges_scan ::
  "env \<Rightarrow> normal_method_t \<Rightarrow> real \<Rightarrow> real \<Rightarrow> point list \<Rightarrow> abort + xreal list" where
  "maxranges_scan E normal_method voxel_diagonal fuzz pts =
     (if normal_method \<noteq> ANGLE then Inl Unsupported_normal_method
      else
        let distances = map (Len E) pts
        in fold (\<lambda>j acc. case acc of
                    Inl e \<Rightarrow> Inl e
                  | Inr maxranges \<Rightarrow> seed_point E voxel_diagonal fuzz pts distances j maxranges)
             (sorted_point_indices distances)
             (Inr (replicate (length pts) PInf)))"

text \<open>The invariant of the phase: every finite range lies between 0 and the
  distance of its point.\<close>

definition range_ok :: "real list \<Rightarrow> xreal list \<Rightarrow> bool" where
  "range_ok distances maxranges \<longleftrightarrow>
     length maxranges = length distances
     \<and> (\<forall>j < length distances. \<forall>r. maxranges ! j = Fin r \<longrightarrow> 0 \<le> r \<and> r \<le> distances ! j)"

section \<open>Carving\<close>

text \<open>
  The end point of the ray to point \<open>j\<close> (lines 835 to 844): the point itself, or,
  when its maximum range is finite, the original point scaled to that range and
  transformed by the pose of the scan.
\<close>

definition ray_end :: "env \<Rightarrow> real list \<Rightarrow> point \<Rightarrow> point \<Rightarrow> xreal \<Rightarrow> point" where
  "ray_end E transmat p p_orig maxrange =
     (case maxrange of
        PInf \<Rightarrow> p
      | Fin m \<Rightarrow>
          let r = Len E p_orig;
              factor = fdiv m r
          in case p_orig of (o0, o1, o2) \<Rightarrow>
               transform3 E transmat (fmul o0 factor, fmul o1 factor, fmul o2 factor))"

text \<open>The walk of one ray of scan \<open>i\<close>; the result is the scan's set \<^verbatim>\<open>free\<close> after
  the walk.\<close>

definition walk_ray ::
  "(voxel \<Rightarrow> size_t list option) \<Rightarrow> size_t \<Rightarrow> real \<Rightarrow> size_t \<Rightarrow> point \<Rightarrow> point \<Rightarrow> voxel set \<Rightarrow>
     voxel set option" where
  "walk_ray occupied diff_opt voxel_size i pos p free =
     map_option (\<lambda>r. empty_voxels (fst r))
       (walk_voxels pos p voxel_size visitor
          \<lparr>empty_voxels = free, voxel_occupied_by_slice = occupied,
           current_slice = i, diff = diff_opt\<rparr>)"

text \<open>The maps of \<^verbatim>\<open>main\<close> that are read while carving: the points, the original
  points, the pose (position and matrix) and the maximum ranges of each scan.\<close>

record slices =
  points_by_slice :: "size_t \<Rightarrow> point list"
  orig_points_by_slice :: "size_t \<Rightarrow> point list"
  trajectory :: "size_t \<Rightarrow> point \<times> real list"
  maxranges :: "size_t \<Rightarrow> xreal list"

text \<open>The body of the loop over the scans (lines 832 to 857): the set \<^verbatim>\<open>free\<close> of
  scan \<open>i\<close>.\<close>

definition carve_scan ::
  "env \<Rightarrow> (voxel \<Rightarrow> size_t list option) \<Rightarrow> size_t \<Rightarrow> real \<Rightarrow> slices \<Rightarrow> size_t \<Rightarrow> voxel set option" where
  "carve_scan E occupied diff_opt voxel_size S i =
     fold (\<lambda>j acc. case acc of
               None \<Rightarrow> None
             | Some free \<Rightarrow>
                 walk_ray occupied diff_opt voxel_size i (fst (trajectory S i))
                   (ray_end E (snd (trajectory S i)) (points_by_slice S i ! j)
                      (orig_points_by_slice S i ! j) (maxranges S i ! j))
                   free)
       [0..<length (points_by_slice S i)] (Some {})"

text \<open>The loop over the scans; every element of \<^verbatim>\<open>free\<close> is inserted into
  \<^verbatim>\<open>free_voxels\<close>.  The iterations, which OpenMP may run in parallel, are taken
  in the order of \<^verbatim>\<open>scanorder\<close>.\<close>

definition carve ::
  "env \<Rightarrow> (voxel \<Rightarrow> size_t list option) \<Rightarrow> size_t \<Rightarrow> real \<Rightarrow> slices \<Rightarrow> size_t list \<Rightarrow> voxel set option" where
  "carve E occupied diff_opt voxel_size S scanorder =
     fold (\<lambda>i acc. case acc of
               None \<Rightarrow> None
             | Some free_voxels \<Rightarrow>
                 (case carve_scan E occupied diff_opt voxel_size S i of
                    None \<Rightarrow> None
                  | Some free \<Rightarrow> Some (free_voxels \<union> free)))
       scanorder (Some {})"

section \<open>Evaluation of the arithmetic\<close>

lemma ilog2_numeral:
  "ilog2 (numeral k) x =
     (if 2 \<le> x then ilog2 (pred_numeral k) (x / 2) + 1
      else if x < 1 then ilog2 (pred_numeral k) (x * 2) - 1
      else 0)"
  by (simp add: numeral_eq_Suc)

lemmas dbl_eval =
  rnd_def rne_def pow2_def ilog2_numeral fadd_def fsub_def fmul_def fdiv_def
  trunc_def fmod_def Let_def




section \<open>Voxelizer: floor division\<close>

lemma py_div_exact_quotient:
  assumes "0 < b" and "fdiv a b = a / b"
  shows "py_div a b = \<lfloor>a / b\<rfloor>"
proof (cases "0 \<le> a / b")
  case True
  then have "0 \<le> a" using assms(1) by (simp add: zero_le_divide_iff)
  have "of_int \<lfloor>a / b\<rfloor> * b \<le> a"
    using assms(1) by (simp add: pos_le_divide_eq [symmetric])
  then have "\<not> fmod a b < 0"
    using True by (simp add: fmod_def trunc_def)
  then show ?thesis
    using True assms by (simp add: py_div_def trunc_def Let_def)
next
  case False
  then have neg: "a / b < 0" by simp
  have le: "a \<le> of_int \<lceil>a / b\<rceil> * b"
    using assms(1) by (simp add: pos_divide_le_eq [symmetric])
  show ?thesis
  proof (cases "a / b = of_int \<lceil>a / b\<rceil>")
    case True
    then have "a = of_int \<lceil>a / b\<rceil> * b"
      using assms(1) by (metis nonzero_divide_eq_eq less_numeral_extra(3))
    then have "fmod a b = 0"
      using neg by (simp add: fmod_def trunc_def)
    moreover have "\<lfloor>a / b\<rfloor> = \<lceil>a / b\<rceil>"
      using True by (metis floor_of_int)
    ultimately show ?thesis
      using neg assms by (simp add: py_div_def trunc_def Let_def)
  next
    case False
    then have "a \<noteq> of_int \<lceil>a / b\<rceil> * b"
      using assms(1) by (auto simp: field_simps)
    with le have "fmod a b < 0"
      using neg by (simp add: fmod_def trunc_def)
    moreover have "\<lceil>a / b\<rceil> - 1 = \<lfloor>a / b\<rfloor>"
      using False by (simp add: ceiling_altdef split: if_splits)
    ultimately show ?thesis
      using neg assms by (simp add: py_div_def trunc_def Let_def)
  qed
qed

text \<open>
  Claim C2.  The voxelizer is to compute the mathematical floor of \<open>x / v\<close> for every
  double \<open>x\<close> and positive \<open>v\<close>.  At \<open>x = -1.0\<close> and \<open>v = 0.1\<close> it does not: the double
  nearest to \<open>0.1\<close> is \<open>3602879701896397 / 2^55\<close>, the double quotient \<open>x / v\<close> is exactly
  \<open>-10\<close>, so the conversion yields \<open>-10\<close>; \<^verbatim>\<open>fmod\<close> is exact and returns a negative
  remainder, and \<open>py_div\<close> subtracts one.  The result \<open>-11\<close> is neither the floor of
  the double quotient nor the floor of the exact quotient, both \<open>-10\<close>, and
  \<open>x / v - py_div x v\<close> is \<open>1\<close>, outside \<open>[0, 1)\<close>.
\<close>

theorem py_div_not_floor_at_tenth:
  "rnd (1 / 10) = 3602879701896397 / 36028797018963968
   \<and> py_div (- 1) (3602879701896397 / 36028797018963968) = - 11
   \<and> \<lfloor>fdiv (- 1) (3602879701896397 / 36028797018963968)\<rfloor> = - 10
   \<and> \<lfloor>(- 1) / (3602879701896397 / 36028797018963968 :: real)\<rfloor> = - 10
   \<and> fdiv (- 1) (3602879701896397 / 36028797018963968)
       - of_int (py_div (- 1) (3602879701896397 / 36028797018963968)) = 1"
  by (simp add: py_div_def dbl_eval)

section \<open>Visitor\<close>

text \<open>The branches of the visitor for a voxel without points and for a window
  of half-width 0.\<close>

lemma visitor_absent:
  "voxel_occupied_by_slice args V = None \<Longrightarrow> visitor V args = (True, args)"
  by (simp add: visitor_def)

lemma visitor_diff_zero:
  "voxel_occupied_by_slice args V = Some S \<Longrightarrow> diff args = 0 \<Longrightarrow>
     visitor V args =
       (if current_slice args \<in> set S then (False, args) else (True, mark_free V args))"
  by (simp add: visitor_def)

lemma lower_bound_None:
  "lower_bound S w = None \<longleftrightarrow> (\<forall>x \<in> set S. \<not> w \<le> x)"
  by (auto simp: lower_bound_def find_None_iff)

lemma lower_bound_Some:
  assumes "sorted S" and "lower_bound S w = Some lb"
  shows "lb \<in> set S \<and> w \<le> lb \<and> (\<forall>x \<in> set S. w \<le> x \<longrightarrow> lb \<le> x)"
proof -
  from assms(2) obtain i where i: "i < length S" "w \<le> S ! i" "lb = S ! i"
    and before: "\<forall>j < i. \<not> w \<le> S ! j"
    by (auto simp: lower_bound_def find_Some_iff)
  have "lb \<le> x" if "x \<in> set S" "w \<le> x" for x
  proof -
    from that obtain k where k: "k < length S" "x = S ! k"
      by (auto simp: in_set_conv_nth)
    with that before have "\<not> k < i" by auto
    then have "i \<le> k" by simp
    with assms(1) k i show ?thesis by (simp add: sorted_nth_mono)
  qed
  with i show ?thesis by auto
qed

text \<open>Without wrap-around of \<open>current_slice + diff\<close> the window test is the one of
  the specification.\<close>

lemma visitor_window_no_overflow:
  assumes S: "sorted S" "voxel_occupied_by_slice args V = Some S"
    and d: "diff args \<noteq> 0"
    and no: "uint (current_slice args) + uint (diff args) < 2 ^ 64"
  shows "visitor V args =
     (if \<exists>x \<in> set S. max 0 (uint (current_slice args) - uint (diff args)) \<le> uint x
                      \<and> uint x \<le> uint (current_slice args) + uint (diff args)
      then (False, args) else (True, mark_free V args))"
proof -
  let ?i = "current_slice args" and ?d = "diff args"
  define w where "w = (if ?d > ?i then 0 else ?i - ?d)"
  have "uint (?i + ?d) = (uint ?i + uint ?d) mod 2 ^ 64"
    by (simp add: uint_word_ariths)
  then have hi: "uint (?i + ?d) = uint ?i + uint ?d"
    using no by simp
  have w: "uint w = max 0 (uint ?i - uint ?d)"
  proof (cases "?d > ?i")
    case True
    then have "uint ?i < uint ?d" by (simp add: word_less_def)
    with True show ?thesis by (simp add: w_def)
  next
    case False
    then have le: "?d \<le> ?i" by simp
    then have "uint (?i - ?d) = uint ?i - uint ?d" by (simp add: uint_sub_if_size word_le_def)
    moreover from le have "uint ?d \<le> uint ?i" by (simp add: word_le_def)
    ultimately show ?thesis using False by (simp add: w_def)
  qed
  have in_win: "(w \<le> x \<and> x \<le> ?i + ?d) \<longleftrightarrow>
      (max 0 (uint ?i - uint ?d) \<le> uint x \<and> uint x \<le> uint ?i + uint ?d)" for x
    using w hi by (simp add: word_le_def)
  show ?thesis
  proof (cases "lower_bound S w")
    case None
    then have "\<forall>x \<in> set S. \<not> w \<le> x" by (simp add: lower_bound_None)
    then have "\<not> (\<exists>x \<in> set S. w \<le> x \<and> x \<le> ?i + ?d)" by blast
    then show ?thesis
      using None S d unfolding in_win by (simp add: visitor_def w_def Let_def)
  next
    case (Some lb)
    from lower_bound_Some [OF S(1) Some]
    have lb: "lb \<in> set S" "w \<le> lb" "\<forall>x \<in> set S. w \<le> x \<longrightarrow> lb \<le> x" by auto
    have "(lb \<le> ?i + ?d) \<longleftrightarrow> (\<exists>x \<in> set S. w \<le> x \<and> x \<le> ?i + ?d)"
      using lb by (meson order_trans)
    then show ?thesis
      using Some S d unfolding in_win by (simp add: visitor_def w_def Let_def)
  qed
qed

text \<open>For a voxel whose scan set is a singleton the window test is then symmetric
  about the current scan.\<close>

lemma visitor_singleton_no_overflow:
  assumes S: "voxel_occupied_by_slice args V = Some [j]"
    and no: "uint (current_slice args) + uint (diff args) < 2 ^ 64"
  shows "visitor V args =
     (if \<bar>uint j - uint (current_slice args)\<bar> > uint (diff args)
      then (True, mark_free V args) else (False, args))"
proof (cases "diff args = 0")
  case True
  then have "uint (diff args) = 0" by simp
  moreover have "(current_slice args = j) \<longleftrightarrow> (uint j = uint (current_slice args))"
    by (auto simp: word_uint_eq_iff)
  ultimately show ?thesis using visitor_diff_zero [OF S True] by auto
next
  case False
  have "sorted [j]" by simp
  have "(max 0 (i - d) \<le> x \<and> x \<le> i + d) \<longleftrightarrow> \<not> \<bar>x - i\<bar> > d" if "0 \<le> x" for i d x :: int
    using that by arith
  from this [of "uint j" "uint (current_slice args)" "uint (diff args)"]
  have "(max 0 (uint (current_slice args) - uint (diff args)) \<le> uint j
        \<and> uint j \<le> uint (current_slice args) + uint (diff args))
      \<longleftrightarrow> \<not> \<bar>uint j - uint (current_slice args)\<bar> > uint (diff args)"
    by simp
  with visitor_window_no_overflow [OF \<open>sorted [j]\<close> S False no]
  show ?thesis by simp
qed

text \<open>
  Claim C1.  For \<open>diff > 0\<close> the visitor is to stop iff the voxel's scan set has an
  element in \<open>[max(0, i - diff), i + diff]\<close>.  The source guards the subtraction
  against wrap-around but not the addition: with \<open>i = 1\<close> and \<open>diff = 2^64 - 1\<close> the
  upper end \<open>i + diff\<close> wraps to \<open>0\<close>, and a voxel occupied by scan \<open>1\<close> itself, which
  lies in the window, is marked free and the walk continues.
\<close>

theorem visitor_window_wraps:
  "visitor \<lparr>vx = 0, vy = 0, vz = 0\<rparr>
     \<lparr>empty_voxels = {}, voxel_occupied_by_slice = [\<lparr>vx = 0, vy = 0, vz = 0\<rparr> \<mapsto> [1]],
      current_slice = 1, diff = 18446744073709551615\<rparr>
   = (True,
      \<lparr>empty_voxels = {\<lparr>vx = 0, vy = 0, vz = 0\<rparr>},
       voxel_occupied_by_slice = [\<lparr>vx = 0, vy = 0, vz = 0\<rparr> \<mapsto> [1]],
       current_slice = 1, diff = 18446744073709551615\<rparr>)
   \<and> (1 :: size_t) + 18446744073709551615 = 0
   \<and> max 0 (uint (1 :: size_t) - uint (18446744073709551615 :: size_t)) \<le> uint (1 :: size_t)
   \<and> uint (1 :: size_t) \<le> uint (1 :: size_t) + uint (18446744073709551615 :: size_t)"
  by (simp add: visitor_def lower_bound_def mark_free_def word_less_def word_le_def)

text \<open>
  Claim C7.  For a voxel whose scan set is the singleton \<open>{j}\<close> the visitor is to free
  the voxel iff \<open>|j - i| > diff\<close>.  Through the same wrap-around of \<open>i + diff\<close> as in
  C1 the voxel is freed at \<open>i = 2\<close>, \<open>j = 3\<close>, \<open>diff = 2^64 - 1\<close>, where \<open>|j - i| = 1\<close>.
\<close>

theorem visitor_singleton_wraps:
  "\<lparr>vx = 0, vy = 0, vz = 0\<rparr> \<in> empty_voxels (snd (visitor \<lparr>vx = 0, vy = 0, vz = 0\<rparr>
     \<lparr>empty_voxels = {}, voxel_occupied_by_slice = [\<lparr>vx = 0, vy = 0, vz = 0\<rparr> \<mapsto> [3]],
      current_slice = 2, diff = 18446744073709551615\<rparr>))
   \<and> \<not> \<bar>uint (3 :: size_t) - uint (2 :: size_t)\<bar> > uint (18446744073709551615 :: size_t)"
  by (simp add: visitor_def lower_bound_def mark_free_def word_less_def word_le_def)

section \<open>Ray walker: termination and first voxel\<close>

text \<open>
  An iteration of the loop that does not break steps at least one axis whose
  \<open>maxMult\<close> is finite, and the counter of every stepped axis stays within
  \<open>maxMult\<close>; hence the sum of \<open>rest\<close> over the axes decreases and the loop
  ends.
\<close>

lemma xplus_PInf_iff: "xplus a b = PInf \<longleftrightarrow> a = PInf"
  by (cases a) simp_all

lemma step_axis_ok: "axis_ok a \<Longrightarrow> axis_ok (fst (step_axis m a))"
  by (auto simp: axis_ok_def step_axis_def Let_def xplus_PInf_iff)

lemma step_axis_tMax_PInf: "axis_ok a \<Longrightarrow> tMax (fst (step_axis m a)) = PInf \<longleftrightarrow> tMax a = PInf"
  by (auto simp: axis_ok_def step_axis_def Let_def xplus_PInf_iff)

lemma step_axis_stepped: "snd (step_axis m a) \<longleftrightarrow> m = tMax a"
  by (simp add: step_axis_def Let_def)

lemma step_axis_rest:
  assumes "axis_ok a" "m \<noteq> PInf" "snd (step_axis m a)"
    "\<not> exceeds (mult (fst (step_axis m a))) (maxMult (fst (step_axis m a)))"
  shows "rest (fst (step_axis m a)) < rest a"
proof -
  from assms(3) have m: "m = tMax a" by (simp add: step_axis_stepped)
  with assms(1,2) obtain b where b: "maxMult a = Fin b"
    by (cases "maxMult a") (auto simp: axis_ok_def)
  from assms(4) m b have "real (mult a + 1) \<le> b"
    by (simp add: step_axis_def Let_def)
  then have "int (mult a + 1) \<le> \<lceil>b\<rceil>" by (simp add: le_ceiling_iff) 
  then have "mult a + 1 \<le> nat \<lceil>b\<rceil>" by linarith
  then show ?thesis using m b by (simp add: rest_def step_axis_def Let_def)
qed

lemma step_axis_rest_le:
  "rest (fst (step_axis m a)) \<le> rest a"
  by (auto simp: rest_def step_axis_def Let_def split: xreal.splits)

lemma xmin_cases: "xmin a b = a \<or> xmin a b = b"
  by (simp add: xmin_def)

lemma xmin_PInf: "xmin a b = PInf \<longleftrightarrow> a = PInf \<and> b = PInf"
  by (cases a; cases b) (auto simp: xmin_def)

lemma loop_tail_Inr:
  assumes "loop_tail vis XS YS ZS dt = Inr s'"
  shows "\<exists>d' tr'. s' = (fst XS, fst YS, fst ZS, d', tr')
     \<and> \<not> (snd XS \<and> exceeds (mult (fst XS)) (maxMult (fst XS)))
     \<and> \<not> (snd YS \<and> exceeds (mult (fst YS)) (maxMult (fst YS)))
     \<and> \<not> (snd ZS \<and> exceeds (mult (fst ZS)) (maxMult (fst ZS)))"
  using assms
  by (cases XS; cases YS; cases ZS) (auto simp: loop_tail_def split: if_splits prod.splits)

lemma loop_body_Inr:
  assumes "loop_body vis (X0, Y0, Z0, d, tr) = Inr s'"
  shows "\<exists>dt. loop_tail vis
           (step_axis (xmin (xmin (tMax X0) (tMax Y0)) (tMax Z0)) X0)
           (step_axis (xmin (xmin (tMax X0) (tMax Y0)) (tMax Z0)) Y0)
           (step_axis (xmin (xmin (tMax X0) (tMax Y0)) (tMax Z0)) Z0) dt = Inr s'"
  using assms
  apply (simp add: loop_body_def Let_def split: if_splits option.splits prod.splits)
   apply (metis surj_pair)
  apply blast
  done

lemma loop_body_decreases:
  assumes "winv s" "loop_body vis s = Inr s'"
  shows "winv s' \<and> wmeasure s' < wmeasure s"
proof -
  obtain X0 Y0 Z0 d tr where s: "s = (X0, Y0, Z0, d, tr)" by (metis surj_pair)
  define m where "m = xmin (xmin (tMax X0) (tMax Y0)) (tMax Z0)"
  from assms(2) have "loop_body vis (X0, Y0, Z0, d, tr) = Inr s'" by (simp add: s)
  from loop_body_Inr [OF this] obtain dt where
    "loop_tail vis (step_axis m X0) (step_axis m Y0) (step_axis m Z0) dt = Inr s'"
    by (auto simp: m_def)
  from loop_tail_Inr [OF this] obtain d' tr' where
    s': "s' = (fst (step_axis m X0), fst (step_axis m Y0), fst (step_axis m Z0), d', tr')"
    and nx: "\<not> (snd (step_axis m X0) \<and> exceeds (mult (fst (step_axis m X0))) (maxMult (fst (step_axis m X0))))"
    and ny: "\<not> (snd (step_axis m Y0) \<and> exceeds (mult (fst (step_axis m Y0))) (maxMult (fst (step_axis m Y0))))"
    and nz: "\<not> (snd (step_axis m Z0) \<and> exceeds (mult (fst (step_axis m Z0))) (maxMult (fst (step_axis m Z0))))"
    by blast
  from assms(1) s have ok: "axis_ok X0" "axis_ok Y0" "axis_ok Z0"
    and fin: "tMax X0 \<noteq> PInf \<or> tMax Y0 \<noteq> PInf \<or> tMax Z0 \<noteq> PInf"
    by (auto simp: winv_def)
  from fin have mfin: "m \<noteq> PInf" by (auto simp: m_def xmin_PInf)
  have inv': "winv s'"
    using ok fin by (simp add: s' winv_def step_axis_ok step_axis_tMax_PInf)
  have some: "snd (step_axis m X0) \<or> snd (step_axis m Y0) \<or> snd (step_axis m Z0)"
    unfolding step_axis_stepped m_def
    using xmin_cases [of "xmin (tMax X0) (tMax Y0)" "tMax Z0"] xmin_cases [of "tMax X0" "tMax Y0"]
    by auto
  have lx: "snd (step_axis m X0) \<Longrightarrow> rest (fst (step_axis m X0)) < rest X0"
    using step_axis_rest [OF ok(1) mfin] nx by blast
  have ly: "snd (step_axis m Y0) \<Longrightarrow> rest (fst (step_axis m Y0)) < rest Y0"
    using step_axis_rest [OF ok(2) mfin] ny by blast
  have lz: "snd (step_axis m Z0) \<Longrightarrow> rest (fst (step_axis m Z0)) < rest Z0"
    using step_axis_rest [OF ok(3) mfin] nz by blast
  have "rest (fst (step_axis m X0)) + rest (fst (step_axis m Y0)) + rest (fst (step_axis m Z0))
      < rest X0 + rest Y0 + rest Z0"
    using some lx ly lz step_axis_rest_le [of m X0] step_axis_rest_le [of m Y0]
      step_axis_rest_le [of m Z0]
    by linarith
  then show ?thesis using inv' by (simp add: s s' wmeasure_def)
qed

lemma walk_loop_returns:
  "winv s \<Longrightarrow> \<exists>r. walk_loop vis s = Some r"
proof (induction s rule: measure_induct_rule [where f = wmeasure])
  case (less s)
  show ?case
  proof (cases "loop_body vis s")
    case (Inl res)
    then show ?thesis by (subst walk_loop.simps) simp
  next
    case (Inr s')
    with less.prems have "winv s'" "wmeasure s' < wmeasure s"
      using loop_body_decreases by blast+
    with less.IH obtain r where "walk_loop vis s' = Some r" by blast
    with Inr show ?thesis by (subst walk_loop.simps) simp
  qed
qed

lemma loop_tail_prefix:
  "loop_tail vis XS YS ZS (d, tr) = Inl (d', tr') \<Longrightarrow> \<exists>ys. tr' = tr @ ys"
  "loop_tail vis XS YS ZS (d, tr) = Inr (X, Y, Z, d', tr') \<Longrightarrow> \<exists>ys. tr' = tr @ ys"
  by (cases XS; cases YS; cases ZS; auto simp: loop_tail_def call_def split: if_splits prod.splits)+

lemma loop_body_prefix:
  "loop_body vis (X0, Y0, Z0, d, tr) = Inl (d', tr') \<Longrightarrow> \<exists>ys. tr' = tr @ ys"
  "loop_body vis (X0, Y0, Z0, d, tr) = Inr (X, Y, Z, d', tr') \<Longrightarrow> \<exists>ys. tr' = tr @ ys"
  by (auto simp: loop_body_def Let_def call_def split: if_splits option.splits prod.splits
      dest!: loop_tail_prefix)

lemma walk_loop_prefix:
  assumes "walk_loop vis s = Some r"
  shows "\<exists>ys. snd r = snd (snd (snd (snd s))) @ ys"
proof (rule walk_loop.raw_induct
    [where P = "\<lambda>vis s r. \<exists>ys. snd r = snd (snd (snd (snd s))) @ ys", OF _ assms])
  fix f :: "(voxel \<Rightarrow> 'a \<Rightarrow> bool \<times> 'a) \<Rightarrow> 'a wstate \<Rightarrow> ('a \<times> trace) option"
    and vis s r
  assume IH: "\<And>vis s r. f vis s = Some r \<Longrightarrow> \<exists>ys. snd r = snd (snd (snd (snd s))) @ ys"
    and body: "(case loop_body vis s of Inl res \<Rightarrow> Some res | Inr s' \<Rightarrow> f vis s') = Some r"
  show "\<exists>ys. snd r = snd (snd (snd (snd s))) @ ys"
  proof (cases "loop_body vis s")
    case (Inl res)
    with body have "r = res" by simp
    with Inl show ?thesis
      using loop_body_prefix(1) [of vis "fst s" "fst (snd s)" "fst (snd (snd s))"
          "fst (snd (snd (snd s)))" "snd (snd (snd (snd s)))" "fst r" "snd r"]
      by simp
  next
    case (Inr s')
    with body have "f vis s' = Some r" by simp
    from IH [OF this] obtain ys where "snd r = snd (snd (snd (snd s'))) @ ys" by blast
    moreover from Inr obtain zs where "snd (snd (snd (snd s'))) = snd (snd (snd (snd s))) @ zs"
      using loop_body_prefix(2) [of vis "fst s" "fst (snd s)" "fst (snd (snd s))"
          "fst (snd (snd (snd s)))" "snd (snd (snd (snd s)))" "fst s'" "fst (snd s')" "fst (snd (snd s'))"
          "fst (snd (snd (snd s')))" "snd (snd (snd (snd s')))"]
      by auto
    ultimately show ?thesis by simp
  qed
qed


lemma axis_init_ok: "axis_ok (axis_init dir sp v sv ev)"
  by (simp add: axis_init_def axis_ok_def Let_def)

lemma axis_init_tMax: "tMax (axis_init dir sp v sv ev) = PInf \<longleftrightarrow> dir = 0"
  by (simp add: axis_init_def Let_def)

lemma call_eq: "\<exists>r d'. call vis v (d, tr) = (r, d', tr @ [(v, r)])"
  by (simp add: call_def split: prod.splits)

lemma walk_voxels_trace:
  assumes "fsub e0 s0 \<noteq> 0 \<or> fsub e1 s1 \<noteq> 0 \<or> fsub e2 s2 \<noteq> 0"
  shows "\<exists>d' tr. walk_voxels (s0, s1, s2) (e0, e1, e2) v vis d = Some (d', tr)
     \<and> tr \<noteq> [] \<and> fst (hd tr) = voxel_of_point (s0, s1, s2) v
     \<and> (voxel_of_point (s0, s1, s2) v = voxel_of_point (e0, e1, e2) v \<longrightarrow>
          map fst tr = [voxel_of_point (e0, e1, e2) v])"
proof -
  let ?sv = "voxel_of_point (s0, s1, s2) v" and ?ev = "voxel_of_point (e0, e1, e2) v"
  obtain r1 d1 where c1: "call vis ?sv (d, []) = (r1, d1, [(?sv, r1)])"
    using call_eq [of vis ?sv d "[]"] by auto
  show ?thesis
  proof (cases "?sv = ?ev")
    case True
    then show ?thesis using assms c1 by (simp add: walk_voxels_def Let_def)
  next
    case False
    let ?X = "axis_init (fsub e0 s0) s0 v (vx ?sv) (vx ?ev)"
    let ?Y = "axis_init (fsub e1 s1) s1 v (vy ?sv) (vy ?ev)"
    let ?Z = "axis_init (fsub e2 s2) s2 v (vz ?sv) (vz ?ev)"
    let ?cur = "\<lparr>vx = cur_c ?X, vy = cur_c ?Y, vz = cur_c ?Z\<rparr>"
    obtain r2 d2 where c2: "call vis ?cur (d1, [(?sv, r1)]) = (r2, d2, [(?sv, r1), (?cur, r2)])"
      using call_eq [of vis ?cur d1 "[(?sv, r1)]"] by auto
    show ?thesis
    proof (cases "?cur = ?ev")
      case True
      then show ?thesis using assms False c1 c2 by (simp add: walk_voxels_def Let_def)
    next
      case ne: False
      have "winv (?X, ?Y, ?Z, d2, [(?sv, r1), (?cur, r2)])"
        using assms by (simp add: winv_def axis_init_ok axis_init_tMax)
      then obtain r where r: "walk_loop vis (?X, ?Y, ?Z, d2, [(?sv, r1), (?cur, r2)]) = Some r"
        using walk_loop_returns by blast
      from walk_loop_prefix [OF this] obtain ys where "snd r = [(?sv, r1), (?cur, r2)] @ ys"
        by auto
      then obtain d' where "r = (d', (?sv, r1) # (?cur, r2) # ys)" by (cases r) simp
      with r have "walk_loop vis (?X, ?Y, ?Z, d2, [(?sv, r1), (?cur, r2)])
          = Some (d', (?sv, r1) # (?cur, r2) # ys)" by simp
      then have "walk_voxels (s0, s1, s2) (e0, e1, e2) v vis d = Some (d', (?sv, r1) # (?cur, r2) # ys)"
        using assms False ne c1 c2 by (simp add: walk_voxels_def Let_def)
      then show ?thesis using False by simp
    qed
  qed
qed

lemma walk_voxels_returns: "\<exists>r. walk_voxels s e v vis d = Some r"
proof -
  obtain s0 s1 s2 e0 e1 e2 where se: "s = (s0, s1, s2)" "e = (e0, e1, e2)"
    by (metis surj_pair)
  show ?thesis
  proof (cases "fsub e0 s0 \<noteq> 0 \<or> fsub e1 s1 \<noteq> 0 \<or> fsub e2 s2 \<noteq> 0")
    case True
    from walk_voxels_trace [OF this, where v = v and vis = vis and d = d]
    show ?thesis unfolding se by blast
  next
    case False
    then show ?thesis by (simp add: se walk_voxels_def)
  qed
qed

subsection \<open>Rays parallel to a coordinate axis\<close>

















section \<open>Ray walker: two rays\<close>

text \<open>
  Two walks evaluated step by step: the voxels of the end points, the
  directions, the initial values of the axes, the entry into the loop and each
  iteration.
\<close>

lemma ray_stop_cells:
  "voxel_of_point (1 / 2, 1 / 2, 1 / 2) 1 = \<lparr>vx = 0, vy = 0, vz = 0\<rparr>"
  "voxel_of_point (5 / 2, 1 / 2, 1 / 2) 1 = \<lparr>vx = 2, vy = 0, vz = 0\<rparr>"
  by (simp_all add: voxel_of_point_def py_div_def dbl_eval)

lemma ray_stop_direction:
  "fsub (5 / 2) (1 / 2) = 2"
  "fsub (1 / 2) (1 / 2) = 0"
  by (simp_all add: dbl_eval)

lemma ray_stop_init:
  "axis_init 2 (1 / 2) 1 0 2 =
     \<lparr>step = 1, tDelta = 1 / 2,
       tMax = Fin (1 / 4), maxMult = Fin 2,
       start_c = 0, cur_c = 0, mult = 0, tMaxStart = Fin (1 / 4)\<rparr>"
  "axis_init 0 (1 / 2) 1 0 0 =
     \<lparr>step = 0, tDelta = 0,
       tMax = PInf, maxMult = PInf,
       start_c = 0, cur_c = 0, mult = 0, tMaxStart = PInf\<rparr>"
  by (simp_all add: axis_init_def py_mod_def dbl_eval)

lemma ray_stop_enter:
  "walk_voxels (1 / 2, 1 / 2, 1 / 2) (5 / 2, 1 / 2, 1 / 2) 1 visitor
     \<lparr>empty_voxels = {},
       voxel_occupied_by_slice =
         [\<lparr>vx = 0, vy = 0, vz = 0\<rparr> \<mapsto> [1],
          \<lparr>vx = 1, vy = 0, vz = 0\<rparr> \<mapsto> [5]],
       current_slice = 0, diff = 1\<rparr>
   = walk_loop visitor
    (\<lparr>step = 1, tDelta = 1 / 2,
       tMax = Fin (1 / 4), maxMult = Fin 2,
       start_c = 0, cur_c = 0, mult = 0, tMaxStart = Fin (1 / 4)\<rparr>,
     \<lparr>step = 0, tDelta = 0,
       tMax = PInf, maxMult = PInf,
       start_c = 0, cur_c = 0, mult = 0, tMaxStart = PInf\<rparr>,
     \<lparr>step = 0, tDelta = 0,
       tMax = PInf, maxMult = PInf,
       start_c = 0, cur_c = 0, mult = 0, tMaxStart = PInf\<rparr>,
     \<lparr>empty_voxels = {},
       voxel_occupied_by_slice =
         [\<lparr>vx = 0, vy = 0, vz = 0\<rparr> \<mapsto> [1],
          \<lparr>vx = 1, vy = 0, vz = 0\<rparr> \<mapsto> [5]],
       current_slice = 0, diff = 1\<rparr>,
     [(\<lparr>vx = 0, vy = 0, vz = 0\<rparr>, False),
      (\<lparr>vx = 0, vy = 0, vz = 0\<rparr>, False)])"
  by (simp add: walk_voxels_def Let_def ray_stop_cells ray_stop_direction ray_stop_init
      call_def visitor_def lower_bound_def mark_free_def word_le_def word_less_def)

lemma ray_stop_walk1:
  "walk_loop visitor
    (\<lparr>step = 1, tDelta = 1 / 2,
       tMax = Fin (1 / 4), maxMult = Fin 2,
       start_c = 0, cur_c = 0, mult = 0, tMaxStart = Fin (1 / 4)\<rparr>,
     \<lparr>step = 0, tDelta = 0,
       tMax = PInf, maxMult = PInf,
       start_c = 0, cur_c = 0, mult = 0, tMaxStart = PInf\<rparr>,
     \<lparr>step = 0, tDelta = 0,
       tMax = PInf, maxMult = PInf,
       start_c = 0, cur_c = 0, mult = 0, tMaxStart = PInf\<rparr>,
     \<lparr>empty_voxels = {},
       voxel_occupied_by_slice =
         [\<lparr>vx = 0, vy = 0, vz = 0\<rparr> \<mapsto> [1],
          \<lparr>vx = 1, vy = 0, vz = 0\<rparr> \<mapsto> [5]],
       current_slice = 0, diff = 1\<rparr>,
     [(\<lparr>vx = 0, vy = 0, vz = 0\<rparr>, False),
      (\<lparr>vx = 0, vy = 0, vz = 0\<rparr>, False)])
   = walk_loop visitor
    (\<lparr>step = 1, tDelta = 1 / 2,
       tMax = Fin (3 / 4), maxMult = Fin 2,
       start_c = 0, cur_c = 1, mult = 1, tMaxStart = Fin (1 / 4)\<rparr>,
     \<lparr>step = 0, tDelta = 0,
       tMax = PInf, maxMult = PInf,
       start_c = 0, cur_c = 0, mult = 0, tMaxStart = PInf\<rparr>,
     \<lparr>step = 0, tDelta = 0,
       tMax = PInf, maxMult = PInf,
       start_c = 0, cur_c = 0, mult = 0, tMaxStart = PInf\<rparr>,
     \<lparr>empty_voxels = {\<lparr>vx = 1, vy = 0, vz = 0\<rparr>},
       voxel_occupied_by_slice =
         [\<lparr>vx = 0, vy = 0, vz = 0\<rparr> \<mapsto> [1],
          \<lparr>vx = 1, vy = 0, vz = 0\<rparr> \<mapsto> [5]],
       current_slice = 0, diff = 1\<rparr>,
     [(\<lparr>vx = 0, vy = 0, vz = 0\<rparr>, False),
      (\<lparr>vx = 0, vy = 0, vz = 0\<rparr>, False),
      (\<lparr>vx = 1, vy = 0, vz = 0\<rparr>, True)])"
  by (subst walk_loop.simps)
    (simp add: loop_body_def loop_tail_def step_axis_def add_axis_def xmin_def call_def
      dbl_eval numeral_2_eq_2 [symmetric] numeral_3_eq_3 [symmetric] visitor_def lower_bound_def mark_free_def word_le_def word_less_def)

lemma ray_stop_walk2:
  "walk_loop visitor
    (\<lparr>step = 1, tDelta = 1 / 2,
       tMax = Fin (3 / 4), maxMult = Fin 2,
       start_c = 0, cur_c = 1, mult = 1, tMaxStart = Fin (1 / 4)\<rparr>,
     \<lparr>step = 0, tDelta = 0,
       tMax = PInf, maxMult = PInf,
       start_c = 0, cur_c = 0, mult = 0, tMaxStart = PInf\<rparr>,
     \<lparr>step = 0, tDelta = 0,
       tMax = PInf, maxMult = PInf,
       start_c = 0, cur_c = 0, mult = 0, tMaxStart = PInf\<rparr>,
     \<lparr>empty_voxels = {\<lparr>vx = 1, vy = 0, vz = 0\<rparr>},
       voxel_occupied_by_slice =
         [\<lparr>vx = 0, vy = 0, vz = 0\<rparr> \<mapsto> [1],
          \<lparr>vx = 1, vy = 0, vz = 0\<rparr> \<mapsto> [5]],
       current_slice = 0, diff = 1\<rparr>,
     [(\<lparr>vx = 0, vy = 0, vz = 0\<rparr>, False),
      (\<lparr>vx = 0, vy = 0, vz = 0\<rparr>, False),
      (\<lparr>vx = 1, vy = 0, vz = 0\<rparr>, True)])
   = walk_loop visitor
    (\<lparr>step = 1, tDelta = 1 / 2,
       tMax = Fin (5 / 4), maxMult = Fin 2,
       start_c = 0, cur_c = 2, mult = 2, tMaxStart = Fin (1 / 4)\<rparr>,
     \<lparr>step = 0, tDelta = 0,
       tMax = PInf, maxMult = PInf,
       start_c = 0, cur_c = 0, mult = 0, tMaxStart = PInf\<rparr>,
     \<lparr>step = 0, tDelta = 0,
       tMax = PInf, maxMult = PInf,
       start_c = 0, cur_c = 0, mult = 0, tMaxStart = PInf\<rparr>,
     \<lparr>empty_voxels = {\<lparr>vx = 1, vy = 0, vz = 0\<rparr>},
       voxel_occupied_by_slice =
         [\<lparr>vx = 0, vy = 0, vz = 0\<rparr> \<mapsto> [1],
          \<lparr>vx = 1, vy = 0, vz = 0\<rparr> \<mapsto> [5]],
       current_slice = 0, diff = 1\<rparr>,
     [(\<lparr>vx = 0, vy = 0, vz = 0\<rparr>, False),
      (\<lparr>vx = 0, vy = 0, vz = 0\<rparr>, False),
      (\<lparr>vx = 1, vy = 0, vz = 0\<rparr>, True),
      (\<lparr>vx = 2, vy = 0, vz = 0\<rparr>, True)])"
  by (subst walk_loop.simps)
    (simp add: loop_body_def loop_tail_def step_axis_def add_axis_def xmin_def call_def
      dbl_eval numeral_2_eq_2 [symmetric] numeral_3_eq_3 [symmetric] visitor_def lower_bound_def mark_free_def word_le_def word_less_def)

lemma ray_stop_walk3:
  "walk_loop visitor
    (\<lparr>step = 1, tDelta = 1 / 2,
       tMax = Fin (5 / 4), maxMult = Fin 2,
       start_c = 0, cur_c = 2, mult = 2, tMaxStart = Fin (1 / 4)\<rparr>,
     \<lparr>step = 0, tDelta = 0,
       tMax = PInf, maxMult = PInf,
       start_c = 0, cur_c = 0, mult = 0, tMaxStart = PInf\<rparr>,
     \<lparr>step = 0, tDelta = 0,
       tMax = PInf, maxMult = PInf,
       start_c = 0, cur_c = 0, mult = 0, tMaxStart = PInf\<rparr>,
     \<lparr>empty_voxels = {\<lparr>vx = 1, vy = 0, vz = 0\<rparr>},
       voxel_occupied_by_slice =
         [\<lparr>vx = 0, vy = 0, vz = 0\<rparr> \<mapsto> [1],
          \<lparr>vx = 1, vy = 0, vz = 0\<rparr> \<mapsto> [5]],
       current_slice = 0, diff = 1\<rparr>,
     [(\<lparr>vx = 0, vy = 0, vz = 0\<rparr>, False),
      (\<lparr>vx = 0, vy = 0, vz = 0\<rparr>, False),
      (\<lparr>vx = 1, vy = 0, vz = 0\<rparr>, True),
      (\<lparr>vx = 2, vy = 0, vz = 0\<rparr>, True)])
   = Some (\<lparr>empty_voxels = {\<lparr>vx = 1, vy = 0, vz = 0\<rparr>},
       voxel_occupied_by_slice =
         [\<lparr>vx = 0, vy = 0, vz = 0\<rparr> \<mapsto> [1],
          \<lparr>vx = 1, vy = 0, vz = 0\<rparr> \<mapsto> [5]],
       current_slice = 0, diff = 1\<rparr>,
     [(\<lparr>vx = 0, vy = 0, vz = 0\<rparr>, False),
      (\<lparr>vx = 0, vy = 0, vz = 0\<rparr>, False),
      (\<lparr>vx = 1, vy = 0, vz = 0\<rparr>, True),
      (\<lparr>vx = 2, vy = 0, vz = 0\<rparr>, True)])"
  by (subst walk_loop.simps)
    (simp add: loop_body_def loop_tail_def step_axis_def add_axis_def xmin_def call_def
      dbl_eval numeral_2_eq_2 [symmetric] numeral_3_eq_3 [symmetric] visitor_def lower_bound_def mark_free_def word_le_def word_less_def)

text \<open>
  Claim C3.  After a call of the visitor that returned stop no further voxel is
  to be delivered.  The walker discards the flag of its first two calls (the
  start voxel, and the current voxel after the corner correction) and tests it
  only inside the loop.  With scan 0 walking a ray from \<open>(0.5, 0.5, 0.5)\<close> to
  \<open>(2.5, 0.5, 0.5)\<close>, voxel size 1 and window half-width 1, where the start voxel
  holds a point of scan 1 and the next voxel a point of scan 5: the visitor
  returns stop on the start voxel, is called on it a second time, and is then
  called on the voxels \<open>(1, 0, 0)\<close> and \<open>(2, 0, 0)\<close>; voxel \<open>(1, 0, 0)\<close> is
  marked free.  The start voxel is delivered twice, so the order of the visits
  is not strict either.
\<close>
theorem walk_continues_after_stop:
  "walk_voxels (1 / 2, 1 / 2, 1 / 2) (5 / 2, 1 / 2, 1 / 2) 1 visitor
     \<lparr>empty_voxels = {},
       voxel_occupied_by_slice =
         [\<lparr>vx = 0, vy = 0, vz = 0\<rparr> \<mapsto> [1],
          \<lparr>vx = 1, vy = 0, vz = 0\<rparr> \<mapsto> [5]],
       current_slice = 0, diff = 1\<rparr>
   = Some (\<lparr>empty_voxels = {\<lparr>vx = 1, vy = 0, vz = 0\<rparr>},
       voxel_occupied_by_slice =
         [\<lparr>vx = 0, vy = 0, vz = 0\<rparr> \<mapsto> [1],
          \<lparr>vx = 1, vy = 0, vz = 0\<rparr> \<mapsto> [5]],
       current_slice = 0, diff = 1\<rparr>,
      [(\<lparr>vx = 0, vy = 0, vz = 0\<rparr>, False),
      (\<lparr>vx = 0, vy = 0, vz = 0\<rparr>, False),
      (\<lparr>vx = 1, vy = 0, vz = 0\<rparr>, True),
      (\<lparr>vx = 2, vy = 0, vz = 0\<rparr>, True)])"
  by (simp only: ray_stop_enter ray_stop_walk1 ray_stop_walk2 ray_stop_walk3)









section \<open>Maximum ranges\<close>

lemma range_ok_update:
  assumes "range_ok ds mr" "k < length ds \<longrightarrow> 0 \<le> r \<and> r \<le> ds ! k"
  shows "range_ok ds (mr[k := Fin r])"
proof -
  have "0 \<le> ra \<and> ra \<le> ds ! j" if "j < length ds" "mr[k := Fin r] ! j = Fin ra" for j ra
  proof (cases "j = k")
    case True
    with that assms show ?thesis by (simp add: range_ok_def)
  next
    case False
    with that assms show ?thesis by (simp add: range_ok_def)
  qed
  then show ?thesis using assms(1) by (simp add: range_ok_def)
qed

lemma shadow_update_ok:
  assumes "range_ok ds mr" "\<forall>x \<in> set ds. 0 \<le> x"
  shows "range_ok ds (shadow_update E pts ds n dv k mr)"
proof -
  have "0 \<le> ds ! k" if "k < length ds" using that assms(2) by simp
  then show ?thesis
    using assms(1) by (auto simp: shadow_update_def Let_def intro!: range_ok_update)
qed

lemma shadow_fold_ok:
  assumes "range_ok ds mr" "\<forall>x \<in> set ds. 0 \<le> x"
  shows "range_ok ds (fold (shadow_update E pts ds n dv) ks mr)"
  using assms(1) by (induction ks arbitrary: mr) (simp_all add: shadow_update_ok assms(2))

lemma seed_point_ok:
  assumes "range_ok ds mr" "\<forall>x \<in> set ds. 0 \<le> x" "seed_point E vd fuzz pts ds j mr = Inr mr'"
  shows "range_ok ds mr'"
proof -
  have nn: "0 \<le> ds ! j" if "j < length ds" using that assms(2) by simp
  show ?thesis
    using assms(1,3) nn
    by (auto simp: seed_point_def Let_def split: if_splits
        intro!: shadow_fold_ok [OF _ assms(2)] range_ok_update)
qed

lemma seed_fold_ok:
  assumes "range_ok ds mr" "\<forall>x \<in> set ds. 0 \<le> x"
    "fold (\<lambda>j acc. case acc of Inl e \<Rightarrow> Inl e | Inr m \<Rightarrow> seed_point E vd fuzz pts ds j m) js (Inr mr)
       = Inr mr'"
  shows "range_ok ds mr'"
  using assms(1,3)
proof (induction js arbitrary: mr)
  case Nil
  then show ?case by simp
next
  case (Cons j js)
  show ?case
  proof (cases "seed_point E vd fuzz pts ds j mr")
    case (Inl e)
    have "fold (\<lambda>j acc. case acc of Inl e \<Rightarrow> Inl e | Inr m \<Rightarrow> seed_point E vd fuzz pts ds j m) js (Inl e)
        = Inl e" for e
      by (induction js) simp_all
    with Inl Cons.prems(2) show ?thesis by simp
  next
    case (Inr m)
    with Cons.prems(1) have "range_ok ds m" using seed_point_ok assms(2) by blast
    with Cons.IH Cons.prems(2) Inr show ?thesis by simp
  qed
qed

text \<open>
  Claim C5.  When the max-range phase of a scan ends without abort, every finite
  entry of \<^verbatim>\<open>maxranges\<close> lies between 0 and the distance \<^verbatim>\<open>Len\<close> of its point.  \<^verbatim>\<open>Len\<close> is
  a parameter of the model; that it is non-negative is assumed.
\<close>

theorem maxranges_within_distance:
  assumes "maxranges_scan E normal_method voxel_diagonal fuzz pts = Inr mr"
    and "\<forall>p. 0 \<le> Len E p"
  shows "length mr = length pts
     \<and> (\<forall>j < length pts. \<forall>r. mr ! j = Fin r \<longrightarrow> 0 \<le> r \<and> r \<le> Len E (pts ! j))"
proof -
  let ?ds = "map (Len E) pts"
  have 0: "range_ok ?ds (replicate (length pts) PInf)" by (simp add: range_ok_def)
  have nn: "\<forall>x \<in> set ?ds. 0 \<le> x" using assms(2) by auto
  from assms(1) have "range_ok ?ds mr"
    using seed_fold_ok [OF 0 nn]
    by (simp add: maxranges_scan_def Let_def split: if_splits)
  then show ?thesis by (simp add: range_ok_def)
qed


theorem maxranges_within_distance_witness:
  "maxranges_scan
     \<lparr>Len = (\<lambda>p. \<bar>snd (snd p)\<bar>), Normalize3 = (\<lambda>p. (0, 0, 1)), calculateNormal = (\<lambda>ps. (0, 0, 1)),
      qtree_search = (\<lambda>ps dir a. [0]), asin = (\<lambda>x. x), transform3 = (\<lambda>m p. p)\<rparr>
     ANGLE 1 0 [(0, 0, 4)] = Inr [Fin 3]
   \<and> (0 :: real) \<le> 3 \<and> (3 :: real) \<le> \<bar>snd (snd (0 :: real, 0 :: real, 4 :: real))\<bar>"
proof -
  let ?E = "\<lparr>Len = (\<lambda>p. \<bar>snd (snd p)\<bar>), Normalize3 = (\<lambda>p. (0, 0, 1)),
      calculateNormal = (\<lambda>ps. (0, 0, 1)), qtree_search = (\<lambda>ps dir a. [0]), asin = (\<lambda>x. x),
      transform3 = (\<lambda>m p. p)\<rparr> :: env"
  have run: "maxranges_scan ?E ANGLE 1 0 [(0, 0, 4)] = Inr [Fin 3]"
    by (simp add: maxranges_scan_def sorted_point_indices_def seed_point_def shadow_update_def
        dot_def dbl_eval)
  have nn: "\<forall>p. 0 \<le> Len ?E p" by simp
  from maxranges_within_distance [OF run nn] run show ?thesis by simp
qed




section \<open>Carving, classification and output\<close>

lemma walk_ray_returns: "\<exists>f. walk_ray occ dopt v i pos p free = Some f"
  using walk_voxels_returns [of pos p v visitor] by (auto simp: walk_ray_def)

lemma carve_scan_returns: "\<exists>f. carve_scan E occ dopt v S i = Some f"
proof -
  have "\<exists>f. fold (\<lambda>j acc. case acc of None \<Rightarrow> None
             | Some free \<Rightarrow> walk_ray occ dopt v i (fst (trajectory S i))
                   (ray_end E (snd (trajectory S i)) (points_by_slice S i ! j)
                      (orig_points_by_slice S i ! j) (maxranges S i ! j)) free) js (Some a) = Some f"
    for js a
  proof (induction js arbitrary: a)
    case Nil
    then show ?case by simp
  next
    case (Cons j js)
    obtain f where "walk_ray occ dopt v i (fst (trajectory S i))
                   (ray_end E (snd (trajectory S i)) (points_by_slice S i ! j)
                      (orig_points_by_slice S i ! j) (maxranges S i ! j)) a = Some f"
      using walk_ray_returns by blast
    with Cons.IH [of f] show ?case by simp
  qed
  then show ?thesis by (simp add: carve_scan_def)
qed

lemma carve_fold:
  assumes "\<forall>i. carve_scan E occ dopt v S i = Some (free i)"
  shows "fold (\<lambda>i acc. case acc of None \<Rightarrow> None
             | Some free_voxels \<Rightarrow>
                 (case carve_scan E occ dopt v S i of None \<Rightarrow> None
                  | Some free \<Rightarrow> Some (free_voxels \<union> free))) is (Some a)
         = Some (a \<union> (\<Union>i \<in> set is. free i))"
  using assms by (induction "is" arbitrary: a) (auto simp: Un_assoc)

lemma write_points_fold:
  "fold (write_point F v) ps out =
     (fst out @ map out_line (filter (\<lambda>p. voxel_of_point p v \<notin> F) ps),
      snd out @ map out_line (filter (\<lambda>p. voxel_of_point p v \<in> F) ps))"
  by (induction ps arbitrary: out) (simp_all add: write_point_def)

lemma write_partitioning_fold:
  "fold (\<lambda>i. fold (write_point F v) (pbs i)) is out =
     (fst out @ map out_line (filter (\<lambda>p. voxel_of_point p v \<notin> F) (concat (map pbs is))),
      snd out @ map out_line (filter (\<lambda>p. voxel_of_point p v \<in> F) (concat (map pbs is))))"
  by (induction "is" arbitrary: out) (simp_all add: write_points_fold)

text \<open>
  Claim C8.  Every scan's carving returns a set \<open>free i\<close>, and \<^verbatim>\<open>free_voxels\<close> after the
  loop over the scans is the union of these sets.  A point is written to the
  dynamic file iff its voxel is in the set of free voxels, and to the static
  file otherwise, in the order of the scans and of the points.  The mask of a
  scan has one line per point, in the order of the points, \<open>1\<close> for a point
  whose voxel is free and \<open>0\<close> otherwise.
\<close>

theorem free_voxels_and_classification:
  "(\<exists>free. (\<forall>i. carve_scan E occupied diff_opt voxel_size S i = Some (free i))
       \<and> carve E occupied diff_opt voxel_size S scanorder = Some (\<Union>i \<in> set scanorder. free i))
   \<and> write_partitioning F voxel_size scanorder pbs reflectances =
       (map out_line (filter (\<lambda>p. voxel_of_point p voxel_size \<notin> F) (concat (map pbs scanorder))),
        map out_line (filter (\<lambda>p. voxel_of_point p voxel_size \<in> F) (concat (map pbs scanorder))))
   \<and> length (write_mask F voxel_size pts) = length pts
   \<and> (\<forall>j < length pts. write_mask F voxel_size pts ! j =
         (if voxel_of_point (pts ! j) voxel_size \<in> F then ''1'' else ''0''))"
proof -
  define free where "free i = the (carve_scan E occupied diff_opt voxel_size S i)" for i
  have 1: "\<forall>i. carve_scan E occupied diff_opt voxel_size S i = Some (free i)"
    using carve_scan_returns [of E occupied diff_opt voxel_size S] by (auto simp: free_def)
  from carve_fold [OF 1, of scanorder "{}"]
  have 2: "carve E occupied diff_opt voxel_size S scanorder = Some (\<Union>i \<in> set scanorder. free i)"
    by (simp add: carve_def)
  from 1 2 show ?thesis
    by (auto simp: write_partitioning_def write_partitioning_fold write_mask_def)
qed

theorem free_voxels_and_classification_witness:
  "(\<exists>free. carve
        \<lparr>Len = (\<lambda>p. \<bar>snd (snd p)\<bar>), Normalize3 = (\<lambda>p. (0, 0, 1)), calculateNormal = (\<lambda>ps. (0, 0, 1)),
         qtree_search = (\<lambda>ps dir a. [0]), asin = (\<lambda>x. x), transform3 = (\<lambda>m p. p)\<rparr>
        Map.empty 0 1
        \<lparr>points_by_slice = (\<lambda>i. [(1 / 2, 1 / 2, 1 / 2), (3 / 2, 1 / 2, 1 / 2)]),
         orig_points_by_slice = (\<lambda>i. [(1 / 2, 1 / 2, 1 / 2), (3 / 2, 1 / 2, 1 / 2)]),
         trajectory = (\<lambda>i. ((0, 0, 0), [])), maxranges = (\<lambda>i. [PInf, PInf])\<rparr>
        [0] = Some (\<Union>i \<in> set [0]. free i))
   \<and> (1 :: nat) < length [(1 / 2, 1 / 2, 1 / 2), (3 / 2, 1 / 2, 1 / 2 :: real)]
   \<and> write_mask {\<lparr>vx = 1, vy = 0, vz = 0\<rparr>} 1 [(1 / 2, 1 / 2, 1 / 2), (3 / 2, 1 / 2, 1 / 2)]
       = [''0'', ''1'']
   \<and> write_partitioning {\<lparr>vx = 1, vy = 0, vz = 0\<rparr>} 1 [0]
        (\<lambda>i. [(1 / 2, 1 / 2, 1 / 2), (3 / 2, 1 / 2, 1 / 2)]) (\<lambda>i. [])
       = ([(1 / 2, 1 / 2, 1 / 2, 0)], [(3 / 2, 1 / 2, 1 / 2, 0)])"
proof -
  have cells: "voxel_of_point (1 / 2, 1 / 2, 1 / 2) 1 = \<lparr>vx = 0, vy = 0, vz = 0\<rparr>"
    "voxel_of_point (3 / 2, 1 / 2, 1 / 2) 1 = \<lparr>vx = 1, vy = 0, vz = 0\<rparr>"
    by (simp_all add: voxel_of_point_def py_div_def dbl_eval)
  have mask: "write_mask {\<lparr>vx = 1, vy = 0, vz = 0\<rparr>} 1 [(1 / 2, 1 / 2, 1 / 2), (3 / 2, 1 / 2, 1 / 2)]
       = [''0'', ''1'']"
    by (simp add: write_mask_def cells)
  from free_voxels_and_classification [where F = "{\<lparr>vx = 1, vy = 0, vz = 0\<rparr>}" and voxel_size = 1
      and scanorder = "[0]" and pts = "[(1 / 2, 1 / 2, 1 / 2), (3 / 2, 1 / 2, 1 / 2)]"
      and pbs = "\<lambda>i. [(1 / 2, 1 / 2, 1 / 2), (3 / 2, 1 / 2, 1 / 2)]" and reflectances = "\<lambda>i. []"
      and occupied = Map.empty and diff_opt = 0
      and E = "\<lparr>Len = (\<lambda>p. \<bar>snd (snd p)\<bar>), Normalize3 = (\<lambda>p. (0, 0, 1)),
         calculateNormal = (\<lambda>ps. (0, 0, 1)), qtree_search = (\<lambda>ps dir a. [0]), asin = (\<lambda>x. x),
         transform3 = (\<lambda>m p. p)\<rparr>"
      and S = "\<lparr>points_by_slice = (\<lambda>i. [(1 / 2, 1 / 2, 1 / 2), (3 / 2, 1 / 2, 1 / 2)]),
         orig_points_by_slice = (\<lambda>i. [(1 / 2, 1 / 2, 1 / 2), (3 / 2, 1 / 2, 1 / 2)]),
         trajectory = (\<lambda>i. ((0, 0, 0), [])), maxranges = (\<lambda>i. [PInf, PInf])\<rparr>"]
  show ?thesis
    by (auto simp: cells mask out_line_def)
qed

text \<open>
  Claim C9.  The fourth field of every line of the two point-cloud files is
  \<open>0\<close>, whatever reflectances were read.
\<close>

theorem reflectance_field_is_zero:
  "\<forall>l \<in> set (fst (write_partitioning F voxel_size scanorder pbs reflectances))
        \<union> set (snd (write_partitioning F voxel_size scanorder pbs reflectances)).
     snd (snd (snd l)) = 0"
  by (auto simp: write_partitioning_def write_partitioning_fold out_line_def)

theorem reflectance_field_is_zero_witness:
  "write_partitioning {\<lparr>vx = 1, vy = 0, vz = 0\<rparr>} 1 [0]
     (\<lambda>i. [(1 / 2, 1 / 2, 1 / 2), (3 / 2, 1 / 2, 1 / 2)]) (\<lambda>i. [7 / 10, 3 / 10])
     = ([(1 / 2, 1 / 2, 1 / 2, 0)], [(3 / 2, 1 / 2, 1 / 2, 0)])
   \<and> (1 / 2, 1 / 2, 1 / 2, 0) \<in> set (fst (write_partitioning {\<lparr>vx = 1, vy = 0, vz = 0\<rparr>} 1 [0]
     (\<lambda>i. [(1 / 2, 1 / 2, 1 / 2), (3 / 2, 1 / 2, 1 / 2)]) (\<lambda>i. [7 / 10, 3 / 10])))
   \<and> snd (snd (snd (1 / 2 :: real, 1 / 2 :: real, 1 / 2 :: real, 0 :: real))) = 0"
proof -
  have cells: "voxel_of_point (1 / 2, 1 / 2, 1 / 2) 1 = \<lparr>vx = 0, vy = 0, vz = 0\<rparr>"
    "voxel_of_point (3 / 2, 1 / 2, 1 / 2) 1 = \<lparr>vx = 1, vy = 0, vz = 0\<rparr>"
    by (simp_all add: voxel_of_point_def py_div_def dbl_eval)
  have run: "write_partitioning {\<lparr>vx = 1, vy = 0, vz = 0\<rparr>} 1 [0]
     (\<lambda>i. [(1 / 2, 1 / 2, 1 / 2), (3 / 2, 1 / 2, 1 / 2)]) (\<lambda>i. [7 / 10, 3 / 10])
     = ([(1 / 2, 1 / 2, 1 / 2, 0)], [(3 / 2, 1 / 2, 1 / 2, 0)])"
    by (simp add: write_partitioning_def write_point_def out_line_def cells)
  from reflectance_field_is_zero [of "{\<lparr>vx = 1, vy = 0, vz = 0\<rparr>}" 1 "[0]"
      "\<lambda>i. [(1 / 2, 1 / 2, 1 / 2), (3 / 2, 1 / 2, 1 / 2)]" "\<lambda>i. [7 / 10, 3 / 10]"] run
  show ?thesis by simp
qed

section \<open>Option validation and output\<close>

text \<open>
  Claim C10.  A negative \<open>start\<close> and an \<open>end\<close> below \<open>-1\<close> are always rejected; among
  the remaining configurations the consistency check rejects exactly those with
  \<open>0 < end < start\<close>, so that \<open>end = 0\<close> with a positive \<open>start\<close> passes.
\<close>

theorem check_scan_range_cases:
  "(start < 0 \<or> end < - 1 \<longrightarrow> isl (check_scan_range start end))
   \<and> (0 \<le> start \<and> - 1 \<le> end \<longrightarrow>
        (check_scan_range start end = Inl End_before_start \<longleftrightarrow> 0 < end \<and> end < start)
        \<and> (check_scan_range start end = Inr () \<longleftrightarrow> \<not> (0 < end \<and> end < start)))
   \<and> (end = 0 \<and> 0 < start \<longrightarrow> check_scan_range start end = Inr ())"
  by (auto simp: check_scan_range_def)

theorem check_scan_range_cases_witness:
  "(- 1 :: int) < 0 \<and> isl (check_scan_range (- 1) 4)
   \<and> isl (check_scan_range 2 (- 2))
   \<and> check_scan_range 5 3 = Inl End_before_start
   \<and> check_scan_range 3 5 = Inr ()
   \<and> check_scan_range 5 0 = Inr ()"
  using check_scan_range_cases [of "- 1" 4] check_scan_range_cases [of 2 "- 2"]
    check_scan_range_cases [of 5 3] check_scan_range_cases [of 3 5]
    check_scan_range_cases [of 5 0]
  by simp

end
